theory Spec2Isabelle
  imports Complex_Main "HOL-Library.AList" "HOL-Library.Sublist"
begin

section \<open>Python values used by the Fixit sources\<close>

text \<open>
  Exceptions of the Python sources are values: a fallible function returns
  \<open>error + 'a\<close>, with \<open>Inl\<close> carrying the exception that would be raised.
\<close>

datatype error =
    KeyError
  | ValueError
  | IndexError
  | TypeError
  | AttributeError
  | FieldNotFound
  | RegexError

text \<open>Constants of \<^verbatim>\<open>fixit/core/constants.py\<close>.\<close>

definition SOH_BIN :: char where
  "SOH_BIN = CHR 0x01"

definition DELIM_UNI :: char where
  "DELIM_UNI = CHR ''=''"

definition DELIM_BIN :: char where
  "DELIM_BIN = CHR 0x3D"










section \<open>Message store (\<^verbatim>\<open>fixit/core/message_store.py\<close>)\<close>

text \<open>
  A stored message is the dictionary \<^verbatim>\<open>{"id": .., "type": .., "msg": ..}\<close>.
  The store is a Python \<^verbatim>\<open>dict\<close> keyed by store id; it is modelled as an
  association list (insertion ordered, one entry per key).
\<close>

record stored_msg =
  sm_id :: string
  sm_type :: string
  sm_msg :: string

type_synonym store = "(string \<times> stored_msg) list"

text \<open>
  \<^verbatim>\<open>MessageStore.remove\<close> is \<^verbatim>\<open>self.store.pop(store_id)\<close>: \<^verbatim>\<open>dict.pop\<close> without a
  default raises \<^verbatim>\<open>KeyError\<close> for a missing key. The model returns the store after
  the call together with the outcome.
\<close>

definition remove :: "store \<Rightarrow> string \<Rightarrow> store \<times> (error + unit)" where
  "remove st store_id =
     (case map_of st store_id of
        None \<Rightarrow> (st, Inl KeyError)
      | Some _ \<Rightarrow> (AList.delete store_id st, Inr ()))"

text \<open>
  The only caller, \<^verbatim>\<open>Delete.run\<close> of \<^verbatim>\<open>message_delete.py\<close>, tests membership
  before it calls \<^verbatim>\<open>remove\<close> and prints \<^verbatim>\<open>"<id> not found"\<close> otherwise. The
  confirmation answer is the first trailing argument, upper-cased; answers other
  than YES and NO are asked again at the prompt, which is outside this model, so
  the model takes the settled answer.
\<close>

datatype delete_outcome = Deleted | Declined | NotFound

definition delete_run :: "store \<Rightarrow> string \<Rightarrow> bool \<Rightarrow> store \<times> (error + delete_outcome)" where
  "delete_run st store_id answer_yes =
     (if map_of st store_id \<noteq> None then
        (if answer_yes then
           (case remove st store_id of
              (st', Inl e) \<Rightarrow> (st', Inl e)
            | (st', Inr _) \<Rightarrow> (st', Inr Deleted))
         else (st, Inr Declined))
      else (st, Inr NotFound))"

section \<open>Fuzzing payloads (\<^verbatim>\<open>message_fuzz.py\<close>)\<close>

text \<open>
  \<^verbatim>\<open>_generate_fuzz_data(n)\<close> walks \<^verbatim>\<open>range(n)\<close> and keeps \<^verbatim>\<open>chr(_val)\<close> unless it
  is one of \<^verbatim>\<open>SOH_UNI['value']\<close>, \<^verbatim>\<open>SOH_BIN\<close>, \<^verbatim>\<open>DELIM_UNI\<close>, \<^verbatim>\<open>DELIM_BIN\<close>.
  The display delimiter \<^verbatim>\<open>SOH_UNI['value']\<close> is a one-character string (default
  \<^verbatim>\<open>"|"\<close>) and is a parameter of the model. Code points are below 256 for every
  \<open>n\<close> the sources use (100 at the call, 128 by default), so \<^verbatim>\<open>chr\<close> is
  \<open>char_of\<close>.
\<close>

definition generate_fuzz_data :: "char \<Rightarrow> nat \<Rightarrow> string list" where
  "generate_fuzz_data soh_uni n =
     map (\<lambda>v. [char_of v])
       (filter (\<lambda>v. char_of v \<notin> set [soh_uni, SOH_BIN, DELIM_UNI, DELIM_BIN]) [0..<n])"

text \<open>The payloads \<^verbatim>\<open>_fuzz_message_fields\<close> uses when no dictionary file is given.\<close>

definition default_fuzz_dict :: "char \<Rightarrow> string list" where
  "default_fuzz_dict soh_uni = generate_fuzz_data soh_uni 100"

text \<open>The printable ASCII range, space to tilde.\<close>

definition printable_range :: "char \<Rightarrow> bool" where
  "printable_range c \<longleftrightarrow> 32 \<le> (of_char c :: nat) \<and> (of_char c :: nat) \<le> 126"

section \<open>Strings as Python has them\<close>

text \<open>
  \<^verbatim>\<open>str.split(sep)\<close> for a one-character separator: the pieces between the
  separators, always at least one piece. \<^verbatim>\<open>sep.join(pieces)\<close> is its inverse.
\<close>

fun split_on :: "char \<Rightarrow> string \<Rightarrow> string list" where
  "split_on d [] = [[]]"
| "split_on d (c # cs) =
     (if c = d then [] # split_on d cs
      else (case split_on d cs of
              piece # pieces \<Rightarrow> (c # piece) # pieces
            | [] \<Rightarrow> [[c]]))"

fun join :: "char \<Rightarrow> string list \<Rightarrow> string" where
  "join d [] = []"
| "join d [f] = f"
| "join d (f # g # fs) = f @ d # join d (g # fs)"

text \<open>\<^verbatim>\<open>str.replace(old, new)\<close> for one-character \<open>old\<close> and \<open>new\<close>.\<close>

definition replace_char :: "char \<Rightarrow> char \<Rightarrow> string \<Rightarrow> string" where
  "replace_char old new s = map (\<lambda>c. if c = old then new else c) s"

text \<open>\<^verbatim>\<open>str(n)\<close> for an integer: decimal digits, a minus sign for negatives.\<close>

definition digit_char :: "nat \<Rightarrow> char" where
  "digit_char d = char_of (48 + d)"

fun str_nat :: "nat \<Rightarrow> string" where
  "str_nat n = (if n < 10 then [digit_char n] else str_nat (n div 10) @ [digit_char (n mod 10)])"

declare str_nat.simps [simp del]

definition str_int :: "int \<Rightarrow> string" where
  "str_int i = (if i < 0 then CHR ''-'' # str_nat (nat (- i)) else str_nat (nat i))"

text \<open>\<^verbatim>\<open>s.zfill(width)\<close> for a string without a sign.\<close>

definition zfill :: "nat \<Rightarrow> string \<Rightarrow> string" where
  "zfill width s = replicate (width - length s) CHR ''0'' @ s"

text \<open>
  \<^verbatim>\<open>s.index(sub)\<close>: the position of the first occurrence of \<open>sub\<close>, or
  \<^verbatim>\<open>ValueError\<close> when there is none.
\<close>

fun find_sub :: "string \<Rightarrow> string \<Rightarrow> nat option" where
  "find_sub sub [] = (if sub = [] then Some 0 else None)"
| "find_sub sub (c # cs) =
     (if prefix sub (c # cs) then Some 0 else map_option Suc (find_sub sub cs))"

definition index :: "string \<Rightarrow> string \<Rightarrow> error + nat" where
  "index s sub = (case find_sub sub s of None \<Rightarrow> Inl ValueError | Some i \<Rightarrow> Inr i)"

section \<open>Wire codec (\<^verbatim>\<open>fixit/utils/common.py\<close>)\<close>

text \<open>
  The display delimiter \<^verbatim>\<open>SOH_UNI['value']\<close> is the parameter \<open>soh_uni\<close>. Every
  field operation picks the delimiter in use from the end of the message:
  \<^verbatim>\<open>SOH = SOH_UNI['value'] if message.endswith(SOH_UNI['value']) else SOH_BIN\<close>.
\<close>

definition delimiter_in_use :: "char \<Rightarrow> string \<Rightarrow> char" where
  "delimiter_in_use soh_uni message = (if suffix [soh_uni] message then soh_uni else SOH_BIN)"

text \<open>
  \<^verbatim>\<open>msg_str_set_field(message, field_num, value)\<close>: the loop replaces the first
  field that starts with \<^verbatim>\<open>f"{field_num}="\<close> and breaks. \<open>field_num\<close> and
  \<open>value\<close> are the texts the f-string interpolates.
\<close>

fun set_first :: "string \<Rightarrow> string \<Rightarrow> string list \<Rightarrow> string list" where
  "set_first key new [] = []"
| "set_first key new (field # msg_fields) =
     (if prefix key field then new # msg_fields else field # set_first key new msg_fields)"

definition msg_str_set_field :: "char \<Rightarrow> string \<Rightarrow> string \<Rightarrow> string \<Rightarrow> string" where
  "msg_str_set_field soh_uni message field_num val =
     (let SOH = delimiter_in_use soh_uni message;
          msg_fields = split_on SOH message
      in join SOH (set_first (field_num @ ''='') (field_num @ ''='' @ val) msg_fields))"

text \<open>
  \<^verbatim>\<open>msg_str_get_field(message, field_num)\<close>: at the first field that starts with
  \<^verbatim>\<open>f"{field_num}="\<close> the source evaluates \<^verbatim>\<open>field.solit("=", 1)[1]\<close>. A Python
  \<^verbatim>\<open>str\<close> has no attribute \<^verbatim>\<open>solit\<close>, so the attribute lookup raises
  \<^verbatim>\<open>AttributeError\<close> before anything is assigned to \<^verbatim>\<open>field_value\<close>. When no field
  matches, \<^verbatim>\<open>field_value\<close> stays \<^verbatim>\<open>None\<close> and \<^verbatim>\<open>fix.FieldNotFound\<close> is raised.
\<close>

definition solit :: "string \<Rightarrow> error + string list" where
  "solit field = Inl AttributeError"

fun get_first :: "string \<Rightarrow> string list \<Rightarrow> error + string option" where
  "get_first key [] = Inr None"
| "get_first key (field # msg_fields) =
     (if prefix key field then
        (case solit field of
           Inl e \<Rightarrow> Inl e
         | Inr parts \<Rightarrow> (if length parts < 2 then Inl IndexError else Inr (Some (parts ! 1))))
      else get_first key msg_fields)"

definition msg_str_get_field :: "char \<Rightarrow> string \<Rightarrow> int \<Rightarrow> error + string" where
  "msg_str_get_field soh_uni message field_num =
     (let SOH = delimiter_in_use soh_uni message
      in case get_first (str_int field_num @ ''='') (split_on SOH message) of
           Inl e \<Rightarrow> Inl e
         | Inr None \<Rightarrow> Inl FieldNotFound
         | Inr (Some field_value) \<Rightarrow> Inr field_value)"

text \<open>
  \<^verbatim>\<open>msg_str_calc_chksum(message)\<close>: the display delimiter is replaced by SOH, the
  character codes before the first occurrence of \<^verbatim>\<open>f"{SOH_BIN}10="\<close> are summed, and
  the result is \<^verbatim>\<open>str((checksum % 256) + 1).zfill(3)\<close>. \<^verbatim>\<open>str.index\<close> raises
  \<^verbatim>\<open>ValueError\<close> when the marker does not occur.
\<close>

definition msg_str_calc_chksum :: "char \<Rightarrow> string \<Rightarrow> error + string" where
  "msg_str_calc_chksum soh_uni message =
     (let message = replace_char soh_uni SOH_BIN message
      in case index message (SOH_BIN # ''10='') of
           Inl e \<Rightarrow> Inl e
         | Inr i \<Rightarrow>
             (let checksum = sum_list (map (of_char :: char \<Rightarrow> nat) (take i message))
              in Inr (zfill 3 (str_nat ((checksum mod 256) + 1)))))"

section \<open>History log query (\<^verbatim>\<open>base_application.py\<close>)\<close>

text \<open>
  The \<^verbatim>\<open>msg_obj\<close> dictionary of \<^verbatim>\<open>_log_message\<close>, with its keys in insertion
  order, and an entry of the in-memory session log: the \<^verbatim>\<open>msg_obj\<close> with the
  history id under the key \<^verbatim>\<open>"id"\<close>.
\<close>

record msg_obj =
  le_time :: string
  le_uuid :: string
  le_state :: string
  le_route :: string
  le_type :: string
  le_msg :: string
  le_notes :: string

record log_entry = msg_obj +
  le_id :: int

text \<open>
  Python's slice \<^verbatim>\<open>xs[start:]\<close>: a negative start counts from the end, and the
  start is clamped to the list.
\<close>

definition slice_from :: "int \<Rightarrow> 'a list \<Rightarrow> 'a list" where
  "slice_from start xs =
     (let n = int (length xs);
          i = (if start < 0 then max (n + start) 0 else min start n)
      in drop (nat i) xs)"

text \<open>
  \<^verbatim>\<open>get_session_message_log(session_num, filter, depth)\<close>. Two library parts are
  parameters: \<open>re_search_ignorecase pattern\<close> is \<^verbatim>\<open>re.search(pattern, _, re.IGNORECASE)\<close>
  (\<open>None\<close> when the pattern does not compile, which raises \<^verbatim>\<open>re.error\<close> at the
  first message tested), and \<open>get_message_type_name\<close> is the second component of
  \<^verbatim>\<open>get_message_type\<close>, which asks the protocol engine. \<open>messages\<close> is the
  session's in-memory log.
\<close>

definition get_session_message_log ::
  "(string \<Rightarrow> (string \<Rightarrow> bool) option) \<Rightarrow> (string \<Rightarrow> string) \<Rightarrow> log_entry list
     \<Rightarrow> string \<Rightarrow> int \<Rightarrow> error + log_entry list" where
  "get_session_message_log re_search_ignorecase get_message_type_name messages filt depth =
     (case re_search_ignorecase (''.*'' @ filt @ ''.*'') of
        None \<Rightarrow> (if messages = [] then Inr (slice_from (- depth) []) else Inl RegexError)
      | Some found \<Rightarrow>
          (let filtered_messages =
                 filter (\<lambda>m. found (le_msg m) \<or> found (get_message_type_name (le_msg m))) messages
           in Inr (slice_from (- depth) filtered_messages)))"

section \<open>Fuzzing: waiting for the response (\<^verbatim>\<open>message_fuzz.py\<close>)\<close>

text \<open>
  The response loop of \<^verbatim>\<open>_fuzz_message_fields\<close>, run after each send:
  \<^verbatim>\<open>
    attempts = 0
    response = ""
    while attempts < 10:
        last_message = client.get_session_message_log(session_num, depth=1)[0]["msg"]
        if sending_time not in last_message:
            response = last_message
            break
        time.sleep(FUZZ_DELAY['value'])
  \<close>
  The session log changes between polls (the engine's threads append to it), so
  the model reads the log of the \<open>polls\<close>-th poll from \<open>log_at\<close>. The loop may
  run forever, so it takes fuel: \<open>None\<close> is "still polling when the fuel ran
  out". The result is the response and the number of polls made.
\<close>

definition last_message ::
  "(string \<Rightarrow> (string \<Rightarrow> bool) option) \<Rightarrow> (string \<Rightarrow> string) \<Rightarrow> log_entry list
     \<Rightarrow> error + string" where
  "last_message re_search_ignorecase get_message_type_name messages =
     (case get_session_message_log re_search_ignorecase get_message_type_name messages ''.*'' 1 of
        Inl e \<Rightarrow> Inl e
      | Inr [] \<Rightarrow> Inl IndexError
      | Inr (m # _) \<Rightarrow> Inr (le_msg m))"

fun await_response ::
  "nat \<Rightarrow> (string \<Rightarrow> (string \<Rightarrow> bool) option) \<Rightarrow> (string \<Rightarrow> string)
     \<Rightarrow> (nat \<Rightarrow> log_entry list) \<Rightarrow> string \<Rightarrow> nat \<Rightarrow> nat \<Rightarrow> (error + string \<times> nat) option" where
  "await_response 0 re_search_ignorecase get_message_type_name log_at sending_time attempts polls = None"
| "await_response (Suc fuel) re_search_ignorecase get_message_type_name log_at sending_time attempts polls =
     (if attempts < 10 then
        (case last_message re_search_ignorecase get_message_type_name (log_at polls) of
           Inl e \<Rightarrow> Some (Inl e)
         | Inr last_msg \<Rightarrow>
             if \<not> sublist sending_time last_msg then Some (Inr (last_msg, Suc polls))
             else await_response fuel re_search_ignorecase get_message_type_name log_at
                    sending_time attempts (Suc polls))
      else Some (Inr ('''', polls)))"

text \<open>
  The pattern built from the default filter is \<^verbatim>\<open>.*.*.*\<close>, which \<^verbatim>\<open>re.search\<close>
  finds in every string.
\<close>

definition search_any :: "string \<Rightarrow> (string \<Rightarrow> bool) option" where
  "search_any pattern = Some (\<lambda>text. True)"

text \<open>
  A session log in which the gateway never answers: at every poll the last
  entry is the fuzzed message that was just sent, which carries the sending time
  \<^verbatim>\<open>20240101-00:00:00.000\<close> in field 52.
\<close>

definition unanswered_log :: "nat \<Rightarrow> log_entry list" where
  "unanswered_log polls =
     [\<lparr>le_time = ''20240101-00:00:00.100'', le_uuid = ''u1'', le_state = ''SENT'',
       le_route = ''-> OUT(APP)'', le_type = ''D (NewOrderSingle)'',
       le_msg = ''8=FIX.4.2|9=5|35=D|52=20240101-00:00:00.000|55=A|10=000|'',
       le_notes = '''', le_id = 0\<rparr>]"

section \<open>Session tracker (\<^verbatim>\<open>base_application.py\<close>)\<close>

text \<open>
  \<^verbatim>\<open>int(text)\<close> in base 10: blanks around the text are stripped, a sign may
  lead, and the rest must be decimal digits, where single underscores may stand
  between digits; any other text raises \<^verbatim>\<open>ValueError\<close>. The blanks that
  \<^verbatim>\<open>int\<close> strips are fewer than those of \<^verbatim>\<open>str.strip()\<close>: below 256 they are
  the codes 9 to 13, 32, 133 and 160, and not the separators 28 to 31, which
  \<^verbatim>\<open>str.isspace()\<close> and \<^verbatim>\<open>str.strip()\<close> count as blanks.
\<close>

definition ascii_digit :: "char \<Rightarrow> bool" where
  "ascii_digit c \<longleftrightarrow> 48 \<le> (of_char c :: nat) \<and> (of_char c :: nat) \<le> 57"

definition nat_of_digits :: "string \<Rightarrow> nat" where
  "nat_of_digits ds = foldl (\<lambda>n c. 10 * n + (of_char c - 48)) 0 ds"



definition int_space :: "char \<Rightarrow> bool" where
  "int_space c \<longleftrightarrow> (of_char c :: nat) \<in> set [9, 10, 11, 12, 13, 32, 133, 160]"

definition int_strip :: "string \<Rightarrow> string" where
  "int_strip s = rev (dropWhile int_space (rev (dropWhile int_space s)))"

definition decimal_literal :: "string \<Rightarrow> bool" where
  "decimal_literal ds \<longleftrightarrow>
     ds \<noteq> [] \<and> list_all (\<lambda>c. ascii_digit c \<or> c = CHR ''_'') ds
     \<and> ascii_digit (hd ds) \<and> ascii_digit (last ds) \<and> \<not> sublist ''__'' ds"

definition int_of_str :: "string \<Rightarrow> int option" where
  "int_of_str text =
     (let stripped = int_strip text;
          (negative, ds) =
            (case stripped of
               c # cs \<Rightarrow> if c = CHR ''-'' then (True, cs) else if c = CHR ''+'' then (False, cs)
                         else (False, stripped)
             | [] \<Rightarrow> (False, stripped));
          n = int (nat_of_digits (filter (\<lambda>c. c \<noteq> CHR ''_'') ds))
      in if decimal_literal ds then Some (if negative then - n else n) else None)"

text \<open>
  The state the tracker keeps for one session. The class-level dictionaries of
  \<^verbatim>\<open>BaseFixApplication\<close> are keyed by the session id; one record holds the
  entries of one session, together with the application attributes the session
  hooks read (\<^verbatim>\<open>config_recon_int\<close>, the credentials) and what the protocol
  engine holds for the session (whether \<^verbatim>\<open>lookupSession\<close> finds it, its next
  sender sequence number, and how often \<^verbatim>\<open>logon()\<close> and \<^verbatim>\<open>logout()\<close> were
  requested). \<open>settings\<close> is the engine's settings dictionary of the session:
  texts by key, \<^verbatim>\<open>setInt\<close> storing the decimal text.
\<close>

record session =
  settings :: "string \<rightharpoonup> string"
  config_recon_int :: int
  username :: string
  password :: string
  newpassword :: string
  session_attempting_logon :: bool
  session_logon_attempts :: int
  session_loggedon :: bool
  session_NextSenderSeqNum :: "int option"
  session_NextExpSeqNum :: "int option"
  engine_has_session :: bool
  engine_NextSenderMsgSeqNum :: int
  engine_logon_calls :: nat
  engine_logout_calls :: nat















section \<open>Sequence-number repair (\<^verbatim>\<open>fromAdmin\<close>, \<^verbatim>\<open>toAdmin\<close>)\<close>







text \<open>
  A message of the protocol engine, as far as the hooks read and write it: the
  message type (header field 35) and the other header and body fields by tag.
\<close>

record fix_message =
  MsgType :: string
  header :: "nat \<rightharpoonup> string"
  body :: "nat \<rightharpoonup> string"




definition set_body :: "nat \<Rightarrow> string \<Rightarrow> fix_message \<Rightarrow> fix_message" where
  "set_body tag v message = message\<lparr>body := (body message)(tag \<mapsto> v)\<rparr>"



text \<open>The credentials block: each of the three is inserted when it is set.\<close>

definition add_credentials :: "session \<Rightarrow> fix_message \<Rightarrow> fix_message" where
  "add_credentials s message =
     (let m1 = (if username s \<noteq> '''' then set_body 553 (username s) message else message);
          m2 = (if password s \<noteq> '''' then set_body 554 (password s) m1 else m1);
          m3 = (if newpassword s \<noteq> '''' then set_body 925 (newpassword s) m2 else m2)
      in m3)"








text \<open>
  The checksum as the specification words it, for a message in wire format
  (fields ended by SOH): the character codes of all characters that precede the
  \<^verbatim>\<open>10=\<close> field are summed, that is, every earlier field together with the
  delimiter that ends it; the sum is taken modulo 256, incremented by 1 and
  padded to three digits. This definition follows the specification, not the
  source; it is compared with \<open>msg_str_calc_chksum\<close> below.
\<close>

definition chars_before_checksum_field :: "string \<Rightarrow> string" where
  "chars_before_checksum_field message =
     concat (map (\<lambda>field. field @ [SOH_BIN])
       (takeWhile (\<lambda>field. \<not> prefix ''10='' field) (split_on SOH_BIN message)))"

definition specified_checksum :: "string \<Rightarrow> string" where
  "specified_checksum message =
     zfill 3 (str_nat
       (sum_list (map (of_char :: char \<Rightarrow> nat) (chars_before_checksum_field message)) mod 256 + 1))"

text \<open>The message of the specification's scenario in wire format.\<close>

definition wire_logon :: string where
  "wire_logon =
     ''8=FIX.4.2'' @ [SOH_BIN] @ ''9=5'' @ [SOH_BIN] @ ''35=A'' @ [SOH_BIN] @ ''10=000'' @ [SOH_BIN]"

section \<open>Message logging and interception (\<^verbatim>\<open>_log_message\<close>)\<close>

text \<open>
  \<^verbatim>\<open>msg_to_str\<close> for a raw string in display form: SOH becomes the display
  delimiter, and \<^verbatim>\<open>msg_encode_binary_chars\<close> keeps the characters of
  \<^verbatim>\<open>string.printable\<close> (codes 32 to 126 and the whitespace 9 to 13) and the two
  delimiters, and writes any other character as \<^verbatim>\<open>\0x\<close> and two hexadecimal
  digits.
\<close>

definition printable :: "char \<Rightarrow> bool" where
  "printable c \<longleftrightarrow>
     (32 \<le> (of_char c :: nat) \<and> (of_char c :: nat) \<le> 126)
     \<or> (9 \<le> (of_char c :: nat) \<and> (of_char c :: nat) \<le> 13)"

definition hex_digit :: "nat \<Rightarrow> char" where
  "hex_digit k = ''0123456789abcdef'' ! k"

definition msg_encode_binary_chars :: "char \<Rightarrow> string \<Rightarrow> string" where
  "msg_encode_binary_chars soh_uni message =
     concat (map (\<lambda>c. if printable c then [c]
                         else if c \<in> set [SOH_BIN, soh_uni] then [c]
                         else [CHR 0x5C, CHR ''0'', CHR ''x'',
                               hex_digit (of_char c div 16), hex_digit (of_char c mod 16)])
                 message)"

definition msg_to_str :: "char \<Rightarrow> string \<Rightarrow> string" where
  "msg_to_str soh_uni message = msg_encode_binary_chars soh_uni (replace_char SOH_BIN soh_uni message)"

text \<open>
  What \<^verbatim>\<open>_log_message\<close> takes from outside the class: the codec
  \<^verbatim>\<open>bytes.decode("unicode_escape")\<close> (which may raise), the protocol engine's
  serialisation \<^verbatim>\<open>message.toString()\<close> and message-type name, the writer's
  colouring, the display delimiter, the list \<^verbatim>\<open>ignored_messages\<close>, and the
  successive values of \<^verbatim>\<open>gen_timestamp()\<close> and \<^verbatim>\<open>gen_uuid()\<close> during the call.
\<close>

record log_env =
  unicode_escape :: "string \<Rightarrow> error + string"
  to_string :: "fix_message \<Rightarrow> string"
  message_type_name :: "fix_message \<Rightarrow> string"
  colour :: "string \<Rightarrow> string"
  fix_delim :: char
  ignored_messages :: "string list"
  gen_timestamp :: "nat \<Rightarrow> string"
  gen_uuid :: "nat \<Rightarrow> string"

text \<open>
  The logs of one session: the in-memory log with its counter, the rows of the
  session's log file (one list of column texts per row), whether the file can be
  opened for appending, and the interceptor's queue of replacement payloads.
\<close>

record log_state =
  session_message_log :: "log_entry list"
  session_message_count :: int
  log_file :: "string list list"
  log_file_writable :: bool
  message_queue :: "string list"

text \<open>
  \<^verbatim>\<open>_log_to_file\<close> stamps the time into \<^verbatim>\<open>msg_obj\<close> and appends the values of
  \<^verbatim>\<open>msg_obj\<close> as one row; an \<^verbatim>\<open>OSError\<close> is swallowed.
\<close>

definition row_of :: "msg_obj \<Rightarrow> string list" where
  "row_of m = [le_time m, le_uuid m, le_state m, le_route m, le_type m, le_msg m, le_notes m]"

definition log_to_file :: "string \<Rightarrow> msg_obj \<Rightarrow> log_state \<Rightarrow> msg_obj \<times> log_state" where
  "log_to_file timestamp m st =
     (let m' = m\<lparr>le_time := timestamp\<rparr>
      in (m', if log_file_writable st then st\<lparr>log_file := log_file st @ [row_of m']\<rparr> else st))"

text \<open>
  The end of \<^verbatim>\<open>_log_message\<close>: the type is rewritten with the coloured name,
  the TestReqID (112) test decides whether an ignored message type returns
  without an entry, and otherwise the entry gets the next history id and is
  appended to the in-memory log. \<open>test_req_id\<close> is the outcome of the field
  lookup: \<open>Inr ()\<close> when the field was read, \<open>Inl FieldNotFound\<close> when it is
  absent, any other error propagates.
\<close>

definition append_to_memory_log ::
  "log_env \<Rightarrow> string \<Rightarrow> string \<Rightarrow> error + unit \<Rightarrow> msg_obj \<Rightarrow> log_state
     \<Rightarrow> log_state \<times> (error + unit)" where
  "append_to_memory_log env msg_type type_name test_req_id m st =
     (let m' = m\<lparr>le_type := msg_type @ '' ('' @ colour env type_name @ '')''\<rparr>
      in if test_req_id = Inl FieldNotFound \<and> msg_type \<in> set (ignored_messages env)
         then (st, Inr ())
         else if test_req_id \<noteq> Inl FieldNotFound \<and> test_req_id \<noteq> Inr ()
         then (st, test_req_id)
         else
           (let history_id = session_message_count st + 1
            in (st\<lparr>session_message_count := history_id,
                   session_message_log := session_message_log st @
                     [\<lparr>le_time = le_time m', le_uuid = le_uuid m', le_state = le_state m',
                       le_route = le_route m', le_type = le_type m', le_msg = le_msg m',
                       le_notes = le_notes m', le_id = history_id\<rparr>]\<rparr>,
                Inr ())))"

text \<open>
  \<^verbatim>\<open>_log_message(msg_route, message, sessionID)\<close> for an initialised session.
  The queue is peeked, not taken from. With an empty queue the message is logged
  as SENT. Otherwise the head of the queue is decoded, the original is written to
  the file as INTERCEPTED, and \<^verbatim>\<open>msg_obj\<close> is rewritten in this order: message,
  state, notes (from the uuid it still has), uuid; then it is written to the file.
  After an interception \<^verbatim>\<open>message\<close> is the replacement string, so the TestReqID
  test goes through \<^verbatim>\<open>msg_str_get_field\<close>.
\<close>

definition log_message ::
  "log_env \<Rightarrow> string \<Rightarrow> fix_message \<Rightarrow> log_state \<Rightarrow> log_state \<times> (error + unit)" where
  "log_message env msg_route message st =
     (let msg_type = MsgType message;
          type_name = message_type_name env message;
          m0 = \<lparr>le_time = gen_timestamp env 0, le_uuid = gen_uuid env 0, le_state = ''SENT'',
                le_route = take (length msg_route - 2) msg_route,
                le_type = msg_type @ '' ('' @ type_name @ '')'',
                le_msg = msg_to_str (fix_delim env) (to_string env message),
                le_notes = ''''\<rparr>
      in case message_queue st of
           [] \<Rightarrow>
             (let (m1, st1) = log_to_file (gen_timestamp env 1) m0 st
              in append_to_memory_log env msg_type type_name
                   (if body message 112 = None then Inl FieldNotFound else Inr ()) m1 st1)
         | queued # _ \<Rightarrow>
             (case unicode_escape env queued of
                Inl e \<Rightarrow> (st, Inl e)
              | Inr replacement \<Rightarrow>
                  (let (m1, st1) = log_to_file (gen_timestamp env 1)
                                     (m0\<lparr>le_state := ''INTERCEPTED''\<rparr>) st;
                       m2 = m1\<lparr>le_msg := msg_to_str (fix_delim env) replacement\<rparr>;
                       m3 = m2\<lparr>le_state := ''SENT''\<rparr>;
                       m4 = m3\<lparr>le_notes := ''Modified version of '' @ le_uuid m3\<rparr>;
                       m5 = m4\<lparr>le_uuid := gen_uuid env 1\<rparr>;
                       (m6, st2) = log_to_file (gen_timestamp env 2) m5 st1
                   in append_to_memory_log env msg_type type_name
                        (case msg_str_get_field (fix_delim env) replacement 112 of
                           Inl e \<Rightarrow> Inl e | Inr _ \<Rightarrow> Inr ())
                        m6 st2)))"

text \<open>
  An environment and a session for the scenario of an order that is replaced:
  the queue holds one payload in wire format, which decodes to itself.
\<close>

definition scenario_env :: log_env where
  "scenario_env =
     \<lparr>unicode_escape = Inr, to_string = (\<lambda>m. replace_char CHR ''|'' SOH_BIN ''8=FIX.4.2|9=5|35=D|55=A|10=000|''),
      message_type_name = (\<lambda>m. ''NewOrderSingle''), colour = (\<lambda>t. t), fix_delim = CHR ''|'',
      ignored_messages = [''0''],
      gen_timestamp = (\<lambda>k. ''20240101-00:00:0'' @ str_nat k), gen_uuid = (\<lambda>k. ''uuid-'' @ str_nat k)\<rparr>"

definition scenario_order :: fix_message where
  "scenario_order = \<lparr>MsgType = ''D'', header = Map.empty, body = [55 \<mapsto> ''A'']\<rparr>"

definition scenario_logs :: log_state where
  "scenario_logs =
     \<lparr>session_message_log = [], session_message_count = - 1, log_file = [],
      log_file_writable = True,
      message_queue = [replace_char CHR ''|'' SOH_BIN ''8=FIX.4.2|9=5|35=D|55=B|10=000|'']\<rparr>"

section \<open>Store ids (\<^verbatim>\<open>message_store.py\<close>)\<close>

text \<open>
  The message store object: the dictionary and \<^verbatim>\<open>auto_resp\<close>, the answer kept
  for a batch.
\<close>

record message_store =
  store :: store
  auto_resp :: "string option"


















section \<open>Properties of the message store\<close>

text \<open>
  C8 (as stated: deleting an absent id is a silent no-op that raises no error).
  \<^verbatim>\<open>MessageStore.remove\<close> on an empty store raises \<^verbatim>\<open>KeyError\<close>.
\<close>

theorem remove_absent_counterexample:
  "remove [] ''FIX.4.2:NewOrderSingle-D:1'' = ([], Inl KeyError)"
  by (simp add: remove_def)

text \<open>
  C8 (amended): \<^verbatim>\<open>remove\<close> deletes the entry of a present id and keeps every
  other entry; for an absent id it raises \<^verbatim>\<open>KeyError\<close> and the store is unchanged.
  The Delete command never reaches that case: for an absent id it reports
  "not found" and leaves the store unchanged without calling \<^verbatim>\<open>remove\<close>.
\<close>

theorem remove_present_or_KeyError:
  "(map_of st sid \<noteq> None \<longrightarrow>
      (\<exists>st'. remove st sid = (st', Inr ()) \<and> map_of st' sid = None
         \<and> (\<forall>k. k \<noteq> sid \<longrightarrow> map_of st' k = map_of st k)))
   \<and> (map_of st sid = None \<longrightarrow>
        remove st sid = (st, Inl KeyError) \<and> delete_run st sid answer = (st, Inr NotFound))"
  by (auto simp: remove_def delete_run_def delete_conv split: option.splits)

theorem remove_present_or_KeyError_witness:
  "remove [(''a:1'', \<lparr>sm_id = ''a:1'', sm_type = ''D'', sm_msg = ''m''\<rparr>)] ''a:1'' = ([], Inr ())
   \<and> remove [(''a:1'', \<lparr>sm_id = ''a:1'', sm_type = ''D'', sm_msg = ''m''\<rparr>)] ''a:2''
       = ([(''a:1'', \<lparr>sm_id = ''a:1'', sm_type = ''D'', sm_msg = ''m''\<rparr>)], Inl KeyError)
   \<and> delete_run [(''a:1'', \<lparr>sm_id = ''a:1'', sm_type = ''D'', sm_msg = ''m''\<rparr>)] ''a:2'' True
       = ([(''a:1'', \<lparr>sm_id = ''a:1'', sm_type = ''D'', sm_msg = ''m''\<rparr>)], Inr NotFound)"
  using remove_present_or_KeyError
          [of "[(''a:1'', \<lparr>sm_id = ''a:1'', sm_type = ''D'', sm_msg = ''m''\<rparr>)]" "''a:1''" True]
        remove_present_or_KeyError
          [of "[(''a:1'', \<lparr>sm_id = ''a:1'', sm_type = ''D'', sm_msg = ''m''\<rparr>)]" "''a:2''" True]
  by (simp add: remove_def)

section \<open>Properties of the generated payloads\<close>

lemma default_fuzz_dict_set:
  "set (default_fuzz_dict d) = {[c] | c. (of_char c :: nat) < 100 \<and> c \<notin> {d, SOH_BIN, DELIM_UNI}}"
proof (intro set_eqI iffI)
  fix p assume "p \<in> set (default_fuzz_dict d)"
  then obtain v :: nat where v: "v < 100" "p = [char_of v]" "char_of v \<notin> {d, SOH_BIN, DELIM_UNI}"
    by (auto simp: default_fuzz_dict_def generate_fuzz_data_def DELIM_UNI_def DELIM_BIN_def)
  then have "(of_char (char_of v) :: nat) < 100" by simp
  with v show "p \<in> {[c] | c. (of_char c :: nat) < 100 \<and> c \<notin> {d, SOH_BIN, DELIM_UNI}}" by blast
next
  fix p assume "p \<in> {[c] | c. (of_char c :: nat) < 100 \<and> c \<notin> {d, SOH_BIN, DELIM_UNI}}"
  then obtain c where c: "p = [c]" "(of_char c :: nat) < 100" "c \<notin> {d, SOH_BIN, DELIM_UNI}" by blast
  have "[char_of (of_char c :: nat)] \<in> set (default_fuzz_dict d)"
    unfolding default_fuzz_dict_def generate_fuzz_data_def using c
    by (auto simp: DELIM_UNI_def DELIM_BIN_def intro!: image_eqI[where x="of_char c"])
  then show "p \<in> set (default_fuzz_dict d)" using c by simp
qed

lemma default_fuzz_dict_distinct: "distinct (default_fuzz_dict d)"
proof -
  have "inj_on (\<lambda>v::nat. [char_of v :: char]) {..<100}"
  proof (rule inj_onI)
    fix x y :: nat assume "x \<in> {..<100}" "y \<in> {..<100}" "[char_of x :: char] = [char_of y]"
    then have "(of_char (char_of x :: char) :: nat) = of_char (char_of y :: char)" "x < 100" "y < 100"
      by simp_all
    then show "x = y" by simp
  qed
  then show ?thesis
    unfolding default_fuzz_dict_def generate_fuzz_data_def
    by (auto simp: distinct_map intro: inj_on_subset)
qed

text \<open>
  C10 (as stated: the generated payloads are all printable-range characters except
  the delimiter forms). With the default delimiter, the printable letter \<open>d\<close>
  (code 100) is no delimiter and is not generated, and the control character NUL
  is generated although it is not printable.
\<close>

theorem default_fuzz_dict_counterexample:
  "printable_range CHR ''d'' \<and> CHR ''d'' \<notin> {CHR ''|'', SOH_BIN, DELIM_UNI, DELIM_BIN}
   \<and> ''d'' \<notin> set (default_fuzz_dict CHR ''|'')
   \<and> [CHR 0x00] \<in> set (default_fuzz_dict CHR ''|'') \<and> \<not> printable_range (CHR 0x00)"
  by (simp add: default_fuzz_dict_set printable_range_def SOH_BIN_def DELIM_UNI_def DELIM_BIN_def)

text \<open>
  C10 (amended): without a dictionary file the payloads are exactly the
  one-character strings with character codes 0 to 99, except the display
  delimiter, the binary delimiter SOH and the tag separator \<open>=\<close>; every
  payload is one character long and no payload occurs twice.
\<close>

theorem default_fuzz_dict_codes_below_100:
  "set (default_fuzz_dict d) = {[c] | c. (of_char c :: nat) < 100 \<and> c \<notin> {d, SOH_BIN, DELIM_UNI}}
   \<and> (\<forall>p \<in> set (default_fuzz_dict d). length p = 1)
   \<and> distinct (default_fuzz_dict d)"
  using default_fuzz_dict_set [of d] default_fuzz_dict_distinct [of d] by auto

theorem default_fuzz_dict_codes_below_100_witness:
  "''A'' \<in> set (default_fuzz_dict CHR ''|'') \<and> ''='' \<notin> set (default_fuzz_dict CHR ''|'')
   \<and> length ''A'' = 1"
  using default_fuzz_dict_codes_below_100 [of "CHR ''|''"]
  by (simp add: SOH_BIN_def DELIM_UNI_def)

section \<open>Properties of the wire codec\<close>

lemma get_first_never_value: "get_first key fs \<noteq> Inr (Some v)"
  by (induction fs) (simp_all add: solit_def)

lemma msg_str_get_field_never_returns: "msg_str_get_field soh_uni message field_num \<noteq> Inr v"
  using get_first_never_value [of "str_int field_num @ ''=''"]
  by (auto simp: msg_str_get_field_def Let_def split: sum.splits option.splits)

text \<open>
  C2 (the code at the scenario of the specification): setting field 35 of
  \<^verbatim>\<open>8=FIX.4.2|9=5|35=A|10=000|\<close> to \<^verbatim>\<open>1\<close> gives \<^verbatim>\<open>8=FIX.4.2|9=5|35=1|10=000|\<close>,
  but reading field 35 back does not return \<^verbatim>\<open>1\<close>: \<^verbatim>\<open>msg_str_get_field\<close> raises
  \<^verbatim>\<open>AttributeError\<close> at the field it finds.
\<close>

theorem get_after_set_raises_AttributeError:
  "msg_str_set_field CHR ''|'' ''8=FIX.4.2|9=5|35=A|10=000|'' ''35'' ''1''
     = ''8=FIX.4.2|9=5|35=1|10=000|''
   \<and> msg_str_get_field CHR ''|''
         (msg_str_set_field CHR ''|'' ''8=FIX.4.2|9=5|35=A|10=000|'' ''35'' ''1'') 35
     = Inl AttributeError"
  by code_simp

section \<open>Properties of the history log query\<close>

lemma slice_from_last:
  assumes "0 \<le> depth"
  shows "slice_from (- depth) xs = (if depth = 0 then xs else drop (length xs - nat depth) xs)"
proof -
  have "nat (int (length xs) - depth) = length xs - nat depth"
    using assms by linarith
  then show ?thesis
    using assms by (auto simp: slice_from_def Let_def max_def)
qed

text \<open>
  C9: for a depth that is not negative and a filter that compiles, the query
  returns the entries that match the filter (on the raw message or on the
  message-type name), in log order, cut to the last \<open>depth\<close> of them, or all of
  them when \<open>depth = 0\<close>: the result is the tail of the matching entries, of
  length \<open>min depth (number of matching entries)\<close>.
\<close>

theorem get_session_message_log_last_depth:
  assumes "0 \<le> depth"
    and "re_search_ignorecase (''.*'' @ filt @ ''.*'') = Some found"
    and "matching = filter (\<lambda>m. found (le_msg m) \<or> found (type_name (le_msg m))) messages"
  shows "\<exists>earlier res.
           get_session_message_log re_search_ignorecase type_name messages filt depth = Inr res
         \<and> matching = earlier @ res
         \<and> length res = (if depth = 0 then length matching else min (nat depth) (length matching))"
proof -
  let ?res = "slice_from (- depth) matching"
  have r: "get_session_message_log re_search_ignorecase type_name messages filt depth = Inr ?res"
    using assms(2,3) by (simp add: get_session_message_log_def)
  have "matching = take (length matching - length ?res) matching @ ?res"
    using assms(1) by (auto simp: slice_from_last)
  moreover have "length ?res = (if depth = 0 then length matching else min (nat depth) (length matching))"
    using assms(1) by (auto simp: slice_from_last)
  ultimately show ?thesis using r by blast
qed

theorem get_session_message_log_last_depth_witness:
  "\<exists>earlier res.
     get_session_message_log (\<lambda>p. Some (sublist ''35=D'')) (\<lambda>m. ''UNKNOWN'')
       [\<lparr>le_time = ''t0'', le_uuid = ''u0'', le_state = ''SENT'', le_route = ''-> OUT(APP)'',
          le_type = ''D'', le_msg = ''8=FIX.4.2|35=D|11=a|'', le_notes = '''', le_id = 0\<rparr>,
        \<lparr>le_time = ''t1'', le_uuid = ''u1'', le_state = ''SENT'', le_route = ''<- IN (APP)'',
          le_type = ''8'', le_msg = ''8=FIX.4.2|35=8|11=a|'', le_notes = '''', le_id = 1\<rparr>,
        \<lparr>le_time = ''t2'', le_uuid = ''u2'', le_state = ''SENT'', le_route = ''-> OUT(APP)'',
          le_type = ''D'', le_msg = ''8=FIX.4.2|35=D|11=b|'', le_notes = '''', le_id = 2\<rparr>]
       ''35=D'' 1 = Inr res
   \<and> [\<lparr>le_time = ''t0'', le_uuid = ''u0'', le_state = ''SENT'', le_route = ''-> OUT(APP)'',
          le_type = ''D'', le_msg = ''8=FIX.4.2|35=D|11=a|'', le_notes = '''', le_id = 0\<rparr>,
        \<lparr>le_time = ''t2'', le_uuid = ''u2'', le_state = ''SENT'', le_route = ''-> OUT(APP)'',
          le_type = ''D'', le_msg = ''8=FIX.4.2|35=D|11=b|'', le_notes = '''', le_id = 2\<rparr>]
       = earlier @ res
   \<and> length res = 1"
proof -
  have m: "[\<lparr>le_time = ''t0'', le_uuid = ''u0'', le_state = ''SENT'', le_route = ''-> OUT(APP)'',
          le_type = ''D'', le_msg = ''8=FIX.4.2|35=D|11=a|'', le_notes = '''', le_id = 0\<rparr>,
        \<lparr>le_time = ''t2'', le_uuid = ''u2'', le_state = ''SENT'', le_route = ''-> OUT(APP)'',
          le_type = ''D'', le_msg = ''8=FIX.4.2|35=D|11=b|'', le_notes = '''', le_id = 2\<rparr>]
     = filter (\<lambda>m. sublist ''35=D'' (le_msg m) \<or> sublist ''35=D'' ((\<lambda>m. ''UNKNOWN'') (le_msg m)))
       [\<lparr>le_time = ''t0'', le_uuid = ''u0'', le_state = ''SENT'', le_route = ''-> OUT(APP)'',
          le_type = ''D'', le_msg = ''8=FIX.4.2|35=D|11=a|'', le_notes = '''', le_id = 0\<rparr>,
        \<lparr>le_time = ''t1'', le_uuid = ''u1'', le_state = ''SENT'', le_route = ''<- IN (APP)'',
          le_type = ''8'', le_msg = ''8=FIX.4.2|35=8|11=a|'', le_notes = '''', le_id = 1\<rparr>,
        \<lparr>le_time = ''t2'', le_uuid = ''u2'', le_state = ''SENT'', le_route = ''-> OUT(APP)'',
          le_type = ''D'', le_msg = ''8=FIX.4.2|35=D|11=b|'', le_notes = '''', le_id = 2\<rparr>]"
    by (simp add: sublist_Cons_right)
  show ?thesis
    using get_session_message_log_last_depth
            [of 1 "\<lambda>p. Some (sublist ''35=D'')" "''35=D''" "sublist ''35=D''", OF _ _ m]
    by simp
qed

section \<open>Properties of the fuzzing response loop\<close>

lemma unanswered_last_message:
  "last_message search_any (\<lambda>m. ''UNKNOWN'') (unanswered_log polls)
     = Inr ''8=FIX.4.2|9=5|35=D|52=20240101-00:00:00.000|55=A|10=000|''"
  by (simp add: last_message_def get_session_message_log_def search_any_def slice_from_def
        unanswered_log_def)

lemma unanswered_contains_sending_time:
  "sublist ''20240101-00:00:00.000'' ''8=FIX.4.2|9=5|35=D|52=20240101-00:00:00.000|55=A|10=000|''"
  by code_simp

text \<open>
  C1 (the code when the gateway does not answer): started with \<^verbatim>\<open>attempts = 0\<close>,
  the response loop is still polling after any number of polls. It neither stops
  after 10 polls nor records an empty response, because \<^verbatim>\<open>attempts\<close> is never
  incremented.
\<close>

theorem await_response_polls_forever:
  "\<forall>fuel polls.
     await_response fuel search_any (\<lambda>m. ''UNKNOWN'') unanswered_log
       ''20240101-00:00:00.000'' 0 polls = None"
proof (intro allI)
  fix fuel polls
  show "await_response fuel search_any (\<lambda>m. ''UNKNOWN'') unanswered_log
          ''20240101-00:00:00.000'' 0 polls = None"
    by (induction fuel arbitrary: polls)
       (simp_all add: unanswered_last_message unanswered_contains_sending_time)
qed

section \<open>Properties of logout and logon\<close>









lemma int_of_str_separator: "int_of_str [CHR 0x1C, CHR ''2''] = None"
  by code_simp











section \<open>Decimal texts\<close>


lemma str_nat_small: "n < 10 \<Longrightarrow> str_nat n = [digit_char n]"
  using str_nat.simps [of n] by simp

lemma str_nat_large: "\<not> n < 10 \<Longrightarrow> str_nat n = str_nat (n div 10) @ [digit_char (n mod 10)]"
  using str_nat.simps [of n] by simp













section \<open>The regular expressions of the tracker\<close>














section \<open>Properties of the sequence-number repair\<close>






lemma add_credentials_keeps:
  "header (add_credentials s m) = header m" and "body (add_credentials s m) 789 = body m 789"
  by (simp_all add: add_credentials_def Let_def set_body_def)







section \<open>Properties of the checksum\<close>

lemma split_on_nonempty: "split_on d s \<noteq> []"
  by (induction s) (auto split: list.splits)

lemma join_Cons: "fs \<noteq> [] \<Longrightarrow> join d (f # fs) = f @ d # join d fs"
  by (cases fs) simp_all

lemma join_split_on: "join d (split_on d s) = s"
proof (induction s)
  case Nil
  then show ?case by simp
next
  case (Cons c s)
  show ?case
  proof (cases "c = d")
    case True
    then show ?thesis
      using Cons split_on_nonempty [of d s] by (simp add: join_Cons)
  next
    case False
    obtain piece pieces where p: "split_on d s = piece # pieces"
      using split_on_nonempty [of d s] by (cases "split_on d s") auto
    have "join d ((c # piece) # pieces) = c # join d (piece # pieces)"
      by (cases pieces) simp_all
    then show ?thesis
      using False Cons p by simp
  qed
qed

lemma split_on_fields_free: "f \<in> set (split_on d s) \<Longrightarrow> d \<notin> set f"
proof (induction s arbitrary: f)
  case Nil
  then show ?case by simp
next
  case (Cons c s)
  show ?case
  proof (cases "c = d")
    case True
    then show ?thesis using Cons by auto
  next
    case False
    obtain piece pieces where p: "split_on d s = piece # pieces"
      using split_on_nonempty [of d s] by (cases "split_on d s") auto
    have "d \<notin> set piece" using Cons.IH [of piece] p by simp
    moreover have "g \<in> set pieces \<Longrightarrow> d \<notin> set g" for g using Cons.IH [of g] p by simp
    ultimately show ?thesis using Cons.prems False p by auto
  qed
qed

lemma find_sub_skip:
  assumes "d \<notin> set a"
  shows "find_sub (d # p) (a @ x) = map_option (\<lambda>i. length a + i) (find_sub (d # p) x)"
  using assms
proof (induction a)
  case Nil
  then show ?case by (simp add: option.map_ident)
next
  case (Cons c a)
  then have "c \<noteq> d" by auto
  then show ?case
    using Cons by (simp add: option.map_comp comp_def)
qed

lemma prefix_before_delimiter:
  assumes "d \<notin> set p" and "prefix p (g @ d # r)"
  shows "prefix p g"
proof -
  obtain q where q: "g @ d # r = p @ q" using assms(2) by (auto simp: prefix_def)
  then consider us where "g = p @ us" | us where "g @ us = p" "us \<noteq> []"
    by (auto simp: append_eq_append_conv2) (metis append.right_neutral)
  then show ?thesis
  proof cases
    case 1
    then show ?thesis by simp
  next
    case 2
    then obtain u us' where "us = u # us'" by (cases us) auto
    then have "p = g @ u # us'" using 2 by simp
    then have "g @ d # r = g @ u # us' @ q" using q by simp
    then have "u = d" by simp
    then show ?thesis using assms(1) \<open>p = g @ u # us'\<close> by simp
  qed
qed


lemma prefix_join_head:
  assumes "d \<notin> set p" and "\<not> prefix p g"
  shows "\<not> prefix p (join d (g # others))"
proof (cases others)
  case Nil
  then show ?thesis using assms by simp
next
  case (Cons h hs)
  then have "join d (g # others) = g @ d # join d (h # hs)" by simp
  then show ?thesis using prefix_before_delimiter [OF assms(1)] assms(2) by metis
qed

lemma find_sub_delimiter:
  "find_sub (d # p) (d # r) = (if prefix p r then Some 0 else map_option Suc (find_sub (d # p) r))"
  by simp

lemma find_sub_join:
  assumes "\<forall>g \<in> set fs. d \<notin> set g" and "\<forall>g \<in> set (tl fs). \<not> prefix p g"
    and "prefix p f" and "d \<notin> set p" and "fs \<noteq> []"
  shows "find_sub (d # p) (join d (fs @ f # gs)) = Some (length (join d fs))"
  using assms
proof (induction fs)
  case Nil
  then show ?case by simp
next
  case (Cons a fs)
  have a: "d \<notin> set a" using Cons.prems(1) by simp
  show ?case
  proof (cases fs)
    case Nil
    have "prefix p (join d (f # gs))"
      using Cons.prems(3) by (cases gs) (auto intro: prefix_prefix)
    then have "find_sub (d # p) (d # join d (f # gs)) = Some 0"
      by (simp only: find_sub_delimiter if_True)
    then show ?thesis
      using Nil find_sub_skip [OF a, of p "d # join d (f # gs)"] by simp
  next
    case (Cons g others)
    have ng: "\<not> prefix p g" using Cons.prems(2) Cons by simp
    have np: "\<not> prefix p (join d (g # (others @ f # gs)))"
      using prefix_join_head [OF Cons.prems(4) ng] .
    have ih: "find_sub (d # p) (join d (fs @ f # gs)) = Some (length (join d fs))"
    proof (rule Cons.IH)
      show "\<forall>g\<in>set fs. d \<notin> set g" using Cons.prems(1) by simp
      show "\<forall>g\<in>set (tl fs). \<not> prefix p g" using Cons.prems(2) Cons by simp
      show "prefix p f" by (rule Cons.prems(3))
      show "d \<notin> set p" by (rule Cons.prems(4))
      show "fs \<noteq> []" using Cons by simp
    qed
    have "find_sub (d # p) (d # join d (fs @ f # gs)) = Some (Suc (length (join d fs)))"
      using np ih Cons by (simp only: find_sub_delimiter) simp
    then show ?thesis
      using Cons find_sub_skip [OF a, of p "d # join d (fs @ f # gs)"] by simp
  qed
qed

lemma find_sub_join_none:
  assumes "\<forall>g \<in> set fs. d \<notin> set g" and "\<forall>g \<in> set (tl fs). \<not> prefix p g"
    and "d \<notin> set p"
  shows "find_sub (d # p) (join d fs) = None"
  using assms
proof (induction fs)
  case Nil
  then show ?case by simp
next
  case (Cons a fs)
  have a: "d \<notin> set a" using Cons.prems(1) by simp
  show ?case
  proof (cases fs)
    case Nil
    then show ?thesis using find_sub_skip [OF a, of p "[]"] by simp
  next
    case (Cons g others)
    have ng: "\<not> prefix p g" using Cons.prems(2) Cons by simp
    have np: "\<not> prefix p (join d (g # others))"
      using prefix_join_head [OF Cons.prems(3) ng] .
    have ih: "find_sub (d # p) (join d fs) = None"
    proof (rule Cons.IH)
      show "\<forall>g\<in>set fs. d \<notin> set g" using Cons.prems(1) by simp
      show "\<forall>g\<in>set (tl fs). \<not> prefix p g" using Cons.prems(2) Cons by simp
      show "d \<notin> set p" by (rule Cons.prems(3))
    qed
    have "find_sub (d # p) (d # join d fs) = None"
      using np ih Cons by (simp only: find_sub_delimiter) simp
    then show ?thesis
      using Cons find_sub_skip [OF a, of p "d # join d fs"] by simp
  qed
qed

lemma join_append_take:
  assumes "fs \<noteq> []"
  shows "take (length (join d fs)) (join d (fs @ f # gs)) = join d fs"
  using assms
proof (induction fs)
  case Nil
  then show ?case by simp
next
  case (Cons a fs)
  show ?case
  proof (cases fs)
    case Nil
    then show ?thesis by simp
  next
    case (Cons g others)
    then have "take (length (join d fs)) (join d (fs @ f # gs)) = join d fs"
      using Cons.IH by simp
    then show ?thesis using Cons by simp
  qed
qed

lemma length_str_nat_le_3:
  assumes "n < 1000"
  shows "length (str_nat n) \<le> 3"
proof (cases "n < 10")
  case True
  then show ?thesis by (simp add: str_nat_small)
next
  case False
  show ?thesis
  proof (cases "n div 10 < 10")
    case True
    then show ?thesis using False by (simp add: str_nat_large str_nat_small)
  next
    case False
    have "n div 10 div 10 < 10" using assms by simp
    then show ?thesis
      using False \<open>\<not> n < 10\<close> by (simp add: str_nat_large str_nat_small)
  qed
qed

lemma length_zfill_3:
  assumes "n < 1000"
  shows "length (zfill 3 (str_nat n)) = 3"
  using length_str_nat_le_3 [OF assms] by (simp add: zfill_def)


lemma SOH_not_in_marker: "SOH_BIN \<notin> set ''10=''"
  by (simp add: SOH_BIN_def)

text \<open>
  C3 (as stated: the codes of all characters preceding the \<^verbatim>\<open>10=\<close> field are
  summed, then modulo 256, then plus 1). For the wire-format message
  \<^verbatim>\<open>8=FIX.4.2|9=5|35=A|10=000|\<close> (with SOH for \<^verbatim>\<open>|\<close>) the characters before the
  \<^verbatim>\<open>10=\<close> field sum to 946, so the stated formula gives \<^verbatim>\<open>179\<close>; the code
  returns \<^verbatim>\<open>178\<close>, because it leaves out the delimiter in front of \<^verbatim>\<open>10=\<close>.
\<close>

theorem checksum_counterexample:
  "msg_str_calc_chksum CHR ''|'' wire_logon = Inr ''178''
   \<and> specified_checksum wire_logon = ''179''"
  by code_simp

text \<open>
  C3 (amended): the display delimiter is first replaced by SOH. When a field
  after the first one starts with \<^verbatim>\<open>10=\<close>, the checksum is computed from the
  fields \<open>fs\<close> before the first such field, joined by SOH and without the
  delimiter that follows them: the sum of their character codes modulo 256, plus
  1, in decimal and padded with zeros to exactly three characters. When no field
  after the first one starts with \<^verbatim>\<open>10=\<close>, \<^verbatim>\<open>ValueError\<close> is raised.
\<close>

theorem msg_str_calc_chksum_before_delimiter:
  "(split_on SOH_BIN (replace_char soh_uni SOH_BIN message) = fs @ f # gs
      \<and> fs \<noteq> [] \<and> prefix ''10='' f \<and> (\<forall>g \<in> set (tl fs). \<not> prefix ''10='' g)
     \<longrightarrow> msg_str_calc_chksum soh_uni message
           = Inr (zfill 3 (str_nat (sum_list (map of_char (join SOH_BIN fs)) mod 256 + 1)))
       \<and> length (zfill 3 (str_nat (sum_list (map of_char (join SOH_BIN fs)) mod 256 + 1))) = 3)
   \<and> ((\<forall>g \<in> set (tl (split_on SOH_BIN (replace_char soh_uni SOH_BIN message))).
           \<not> prefix ''10='' g)
     \<longrightarrow> msg_str_calc_chksum soh_uni message = Inl ValueError)"
proof (intro conjI impI)
  define n where "n = replace_char soh_uni SOH_BIN message"
  assume h: "split_on SOH_BIN (replace_char soh_uni SOH_BIN message) = fs @ f # gs
      \<and> fs \<noteq> [] \<and> prefix ''10='' f \<and> (\<forall>g \<in> set (tl fs). \<not> prefix ''10='' g)"
  then have sp: "split_on SOH_BIN n = fs @ f # gs" by (simp add: n_def)
  have free: "\<forall>g \<in> set fs. SOH_BIN \<notin> set g"
    using split_on_fields_free [of _ SOH_BIN n] sp by simp
  have n: "n = join SOH_BIN (fs @ f # gs)"
    using join_split_on [of SOH_BIN n] sp by simp
  have "find_sub (SOH_BIN # ''10='') n = Some (length (join SOH_BIN fs))"
    unfolding n using h free SOH_not_in_marker by (intro find_sub_join) simp_all
  moreover have "take (length (join SOH_BIN fs)) n = join SOH_BIN fs"
    unfolding n using h by (intro join_append_take) simp
  ultimately show "msg_str_calc_chksum soh_uni message
           = Inr (zfill 3 (str_nat (sum_list (map of_char (join SOH_BIN fs)) mod 256 + 1)))"
    by (simp add: msg_str_calc_chksum_def index_def n_def [symmetric] Let_def)
  have "sum_list (map (of_char :: char \<Rightarrow> nat) (join SOH_BIN fs)) mod 256 + 1 < 1000"
    using mod_less_divisor [of 256 "sum_list (map (of_char :: char \<Rightarrow> nat) (join SOH_BIN fs))"]
    by linarith
  then show "length (zfill 3 (str_nat (sum_list (map of_char (join SOH_BIN fs)) mod 256 + 1))) = 3"
    by (rule length_zfill_3)
next
  define n where "n = replace_char soh_uni SOH_BIN message"
  assume "\<forall>g \<in> set (tl (split_on SOH_BIN (replace_char soh_uni SOH_BIN message))).
           \<not> prefix ''10='' g"
  then have h: "\<forall>g \<in> set (tl (split_on SOH_BIN n)). \<not> prefix ''10='' g"
    by (simp add: n_def)
  have free: "\<forall>g \<in> set (split_on SOH_BIN n). SOH_BIN \<notin> set g"
    using split_on_fields_free [of _ SOH_BIN n] by simp
  have "find_sub (SOH_BIN # ''10='') (join SOH_BIN (split_on SOH_BIN n)) = None"
    using free h SOH_not_in_marker by (rule find_sub_join_none)
  then have "find_sub (SOH_BIN # ''10='') n = None"
    by (simp add: join_split_on)
  then show "msg_str_calc_chksum soh_uni message = Inl ValueError"
    by (simp add: msg_str_calc_chksum_def index_def n_def [symmetric] Let_def)
qed

theorem msg_str_calc_chksum_before_delimiter_witness:
  "msg_str_calc_chksum CHR ''|'' ''8=FIX.4.2|9=5|35=A|10=000|'' = Inr ''178''
   \<and> msg_str_calc_chksum CHR ''|'' ''8=FIX.4.2|9=5|35=A|'' = Inl ValueError"
proof -
  have a: "split_on SOH_BIN (replace_char CHR ''|'' SOH_BIN ''8=FIX.4.2|9=5|35=A|10=000|'')
       = [''8=FIX.4.2'', ''9=5'', ''35=A''] @ ''10=000'' # [[]]"
    by code_simp
  have b: "zfill 3 (str_nat (sum_list (map (of_char :: char \<Rightarrow> nat)
              (join SOH_BIN [''8=FIX.4.2'', ''9=5'', ''35=A''])) mod 256 + 1)) = ''178''"
    by code_simp
  have c: "split_on SOH_BIN (replace_char CHR ''|'' SOH_BIN ''8=FIX.4.2|9=5|35=A|'')
       = [''8=FIX.4.2'', ''9=5'', ''35=A'', []]"
    by code_simp
  show ?thesis
    using msg_str_calc_chksum_before_delimiter
        [where soh_uni="CHR ''|''" and message="''8=FIX.4.2|9=5|35=A|10=000|''"
           and fs="[''8=FIX.4.2'', ''9=5'', ''35=A'']" and f="''10=000''" and gs="[[]]"]
      msg_str_calc_chksum_before_delimiter
        [where soh_uni="CHR ''|''" and message="''8=FIX.4.2|9=5|35=A|''"
           and fs="[''8=FIX.4.2'']" and f="''9=5''" and gs="[]"]
      a b c
    by simp
qed

section \<open>Properties of the interception logging\<close>

lemma append_to_memory_log_file:
  "log_file (fst (append_to_memory_log env t n r m st)) = log_file st"
  "message_queue (fst (append_to_memory_log env t n r m st)) = message_queue st"
  by (simp_all add: append_to_memory_log_def Let_def)

lemma append_to_memory_log_entries:
  "session_message_log (fst (append_to_memory_log env t n r m st)) = session_message_log st
   \<or> (\<exists>e. session_message_log (fst (append_to_memory_log env t n r m st))
              = session_message_log st @ [e] \<and> le_state e = le_state m \<and> le_msg e = le_msg m
              \<and> le_notes e = le_notes m \<and> le_uuid e = le_uuid m)"
  by (simp add: append_to_memory_log_def Let_def)

lemma msg_encode_binary_chars_printable:
  assumes "list_all (\<lambda>c. printable c \<or> c = SOH_BIN \<or> c = d) t"
  shows "msg_encode_binary_chars d t = t"
  using assms by (induction t) (auto simp: msg_encode_binary_chars_def)

lemma msg_to_str_display:
  assumes "list_all (\<lambda>c. printable c \<or> c = SOH_BIN \<or> c = d) t"
  shows "msg_to_str d t = replace_char SOH_BIN d t"
proof -
  have "list_all (\<lambda>c. printable c \<or> c = SOH_BIN \<or> c = d) (replace_char SOH_BIN d t)"
    using assms by (auto simp: replace_char_def list_all_iff)
  then show ?thesis
    unfolding msg_to_str_def by (rule msg_encode_binary_chars_printable)
qed

lemma log_message_intercepting:
  assumes "message_queue st = queued # waiting"
    and "unicode_escape env queued = Inr replacement"
  shows "log_message env msg_route message st =
     append_to_memory_log env (MsgType message) (message_type_name env message)
       (case msg_str_get_field (fix_delim env) replacement 112 of
          Inl e \<Rightarrow> Inl e | Inr _ \<Rightarrow> Inr ())
       \<lparr>le_time = gen_timestamp env 2, le_uuid = gen_uuid env 1, le_state = ''SENT'',
        le_route = take (length msg_route - 2) msg_route,
        le_type = MsgType message @ '' ('' @ message_type_name env message @ '')'',
        le_msg = msg_to_str (fix_delim env) replacement,
        le_notes = ''Modified version of '' @ gen_uuid env 0\<rparr>
       (if log_file_writable st then
          st\<lparr>log_file := log_file st @
            [[gen_timestamp env 1, gen_uuid env 0, ''INTERCEPTED'',
              take (length msg_route - 2) msg_route,
              MsgType message @ '' ('' @ message_type_name env message @ '')'',
              msg_to_str (fix_delim env) (to_string env message), ''''],
             [gen_timestamp env 2, gen_uuid env 1, ''SENT'',
              take (length msg_route - 2) msg_route,
              MsgType message @ '' ('' @ message_type_name env message @ '')'',
              msg_to_str (fix_delim env) replacement,
              ''Modified version of '' @ gen_uuid env 0]]\<rparr>
        else st)"
  using assms
  by (simp add: log_message_def Let_def split_beta log_to_file_def row_of_def)

text \<open>
  C4 (as stated: for every transmission for which a substitution is queued, the
  hook records exactly one INTERCEPTED entry with the original message,
  immediately followed by exactly one SENT entry with the replacement). A
  NewOrderSingle is about to be sent while a replacement is at the head of the
  queue. The in-memory log of the session, which the history queries read,
  receives the SENT entry only. When the log file cannot be opened for
  appending, no row is written either, so that no INTERCEPTED entry is recorded
  anywhere.
\<close>

theorem interception_counterexample:
  "message_queue scenario_logs = [replace_char CHR ''|'' SOH_BIN ''8=FIX.4.2|9=5|35=D|55=B|10=000|'']
   \<and> map le_state (session_message_log
         (fst (log_message scenario_env ''-> OUT(APP): '' scenario_order scenario_logs)))
     = [''SENT'']
   \<and> log_file (fst (log_message scenario_env ''-> OUT(APP): '' scenario_order
                       (scenario_logs\<lparr>log_file_writable := False\<rparr>)))
     = []
   \<and> map le_state (session_message_log
         (fst (log_message scenario_env ''-> OUT(APP): '' scenario_order
                 (scenario_logs\<lparr>log_file_writable := False\<rparr>))))
     = [''SENT'']"
  by code_simp

text \<open>
  C4 (amended): let \<^verbatim>\<open>_log_message\<close> be called while a payload is at the head of
  the queue. When the payload does not decode, the call raises and nothing is
  logged. When it decodes and the session's log file can be appended to, exactly
  two rows are appended to the file: an INTERCEPTED row with the original
  message, immediately followed by a SENT row with the queued replacement, whose
  notes are \<^verbatim>\<open>Modified version of\<close> followed by the uuid of the INTERCEPTED row;
  when the file cannot be opened, nothing is written to it. The in-memory log
  never receives an INTERCEPTED entry: for a replacement without a TestReqID
  field it receives the SENT entry, with the same uuid, notes and replacement
  text and the next history id, unless the message type is ignored, and then it
  receives nothing. The queue is only peeked and stays as it is. The message
  columns hold the display form: a text of printable characters and delimiters
  is logged with SOH replaced by the display delimiter and nothing else changed.
\<close>

theorem interception_logged:
  fixes env :: log_env and st :: log_state and message :: fix_message
  defines "route \<equiv> \<lambda>msg_route :: string. take (length msg_route - 2) msg_route"
  assumes "message_queue st = queued # waiting"
  shows
   "(unicode_escape env queued = Inl e \<longrightarrow> log_message env msg_route message st = (st, Inl e))
    \<and> (unicode_escape env queued = Inr replacement \<longrightarrow>
         (log_file_writable st \<longrightarrow>
            log_file (fst (log_message env msg_route message st)) = log_file st @
              [[gen_timestamp env 1, gen_uuid env 0, ''INTERCEPTED'', route msg_route,
                MsgType message @ '' ('' @ message_type_name env message @ '')'',
                msg_to_str (fix_delim env) (to_string env message), ''''],
               [gen_timestamp env 2, gen_uuid env 1, ''SENT'', route msg_route,
                MsgType message @ '' ('' @ message_type_name env message @ '')'',
                msg_to_str (fix_delim env) replacement, ''Modified version of '' @ gen_uuid env 0]])
         \<and> (\<not> log_file_writable st \<longrightarrow>
              log_file (fst (log_message env msg_route message st)) = log_file st)
         \<and> message_queue (fst (log_message env msg_route message st)) = message_queue st
         \<and> log_file_writable (fst (log_message env msg_route message st)) = log_file_writable st
         \<and> (msg_str_get_field (fix_delim env) replacement 112 = Inl FieldNotFound
              \<and> MsgType message \<notin> set (ignored_messages env) \<longrightarrow>
              session_message_log (fst (log_message env msg_route message st))
                = session_message_log st @
                  [\<lparr>le_time = gen_timestamp env 2, le_uuid = gen_uuid env 1, le_state = ''SENT'',
                    le_route = route msg_route,
                    le_type = MsgType message @ '' ('' @ colour env (message_type_name env message) @ '')'',
                    le_msg = msg_to_str (fix_delim env) replacement,
                    le_notes = ''Modified version of '' @ gen_uuid env 0,
                    le_id = session_message_count st + 1\<rparr>]
              \<and> session_message_count (fst (log_message env msg_route message st))
                  = session_message_count st + 1
              \<and> snd (log_message env msg_route message st) = Inr ())
         \<and> (msg_str_get_field (fix_delim env) replacement 112 = Inl FieldNotFound
              \<and> MsgType message \<in> set (ignored_messages env) \<longrightarrow>
              session_message_log (fst (log_message env msg_route message st)) = session_message_log st
              \<and> session_message_count (fst (log_message env msg_route message st))
                  = session_message_count st
              \<and> snd (log_message env msg_route message st) = Inr ())
         \<and> (session_message_log (fst (log_message env msg_route message st)) = session_message_log st
              \<or> (\<exists>entry. session_message_log (fst (log_message env msg_route message st))
                        = session_message_log st @ [entry]
                     \<and> le_state entry = ''SENT''
                     \<and> le_msg entry = msg_to_str (fix_delim env) replacement
                     \<and> le_notes entry = ''Modified version of '' @ gen_uuid env 0
                     \<and> le_uuid entry = gen_uuid env 1))
         \<and> (list_all (\<lambda>c. printable c \<or> c = SOH_BIN \<or> c = fix_delim env) (to_string env message) \<longrightarrow>
              msg_to_str (fix_delim env) (to_string env message)
              = replace_char SOH_BIN (fix_delim env) (to_string env message))
         \<and> (list_all (\<lambda>c. printable c \<or> c = SOH_BIN \<or> c = fix_delim env) replacement \<longrightarrow>
              msg_to_str (fix_delim env) replacement
              = replace_char SOH_BIN (fix_delim env) replacement))"
proof (intro conjI impI)
  show "log_message env msg_route message st = (st, Inl e)"
    if "unicode_escape env queued = Inl e"
    using that assms(2) by (simp add: log_message_def Let_def)
  show "log_file (fst (log_message env msg_route message st)) = log_file st @
              [[gen_timestamp env 1, gen_uuid env 0, ''INTERCEPTED'', route msg_route,
                MsgType message @ '' ('' @ message_type_name env message @ '')'',
                msg_to_str (fix_delim env) (to_string env message), ''''],
               [gen_timestamp env 2, gen_uuid env 1, ''SENT'', route msg_route,
                MsgType message @ '' ('' @ message_type_name env message @ '')'',
                msg_to_str (fix_delim env) replacement, ''Modified version of '' @ gen_uuid env 0]]"
    if u: "unicode_escape env queued = Inr replacement" and w: "log_file_writable st"
    unfolding log_message_intercepting [OF assms(2) u] append_to_memory_log_file route_def
    using w by simp
  show "log_file (fst (log_message env msg_route message st)) = log_file st"
    if u: "unicode_escape env queued = Inr replacement" and w: "\<not> log_file_writable st"
    unfolding log_message_intercepting [OF assms(2) u] append_to_memory_log_file
    using w by simp
  show "message_queue (fst (log_message env msg_route message st)) = message_queue st"
    if u: "unicode_escape env queued = Inr replacement"
    unfolding log_message_intercepting [OF assms(2) u] append_to_memory_log_file by simp
  show "log_file_writable (fst (log_message env msg_route message st)) = log_file_writable st"
    if u: "unicode_escape env queued = Inr replacement"
    unfolding log_message_intercepting [OF assms(2) u]
    by (simp add: append_to_memory_log_def Let_def)
  show "session_message_log (fst (log_message env msg_route message st))
                = session_message_log st @
                  [\<lparr>le_time = gen_timestamp env 2, le_uuid = gen_uuid env 1, le_state = ''SENT'',
                    le_route = route msg_route,
                    le_type = MsgType message @ '' ('' @ colour env (message_type_name env message) @ '')'',
                    le_msg = msg_to_str (fix_delim env) replacement,
                    le_notes = ''Modified version of '' @ gen_uuid env 0,
                    le_id = session_message_count st + 1\<rparr>]"
    if u: "unicode_escape env queued = Inr replacement"
      and a: "msg_str_get_field (fix_delim env) replacement 112 = Inl FieldNotFound
              \<and> MsgType message \<notin> set (ignored_messages env)"
    unfolding log_message_intercepting [OF assms(2) u] route_def
    using a by (simp add: append_to_memory_log_def Let_def)
  show "session_message_count (fst (log_message env msg_route message st))
                  = session_message_count st + 1"
    if u: "unicode_escape env queued = Inr replacement"
      and a: "msg_str_get_field (fix_delim env) replacement 112 = Inl FieldNotFound
              \<and> MsgType message \<notin> set (ignored_messages env)"
    unfolding log_message_intercepting [OF assms(2) u]
    using a by (simp add: append_to_memory_log_def Let_def)
  show "snd (log_message env msg_route message st) = Inr ()"
    if u: "unicode_escape env queued = Inr replacement"
      and a: "msg_str_get_field (fix_delim env) replacement 112 = Inl FieldNotFound
              \<and> MsgType message \<notin> set (ignored_messages env)"
    unfolding log_message_intercepting [OF assms(2) u]
    using a by (simp add: append_to_memory_log_def Let_def)
  show "session_message_log (fst (log_message env msg_route message st)) = session_message_log st"
    if u: "unicode_escape env queued = Inr replacement"
      and a: "msg_str_get_field (fix_delim env) replacement 112 = Inl FieldNotFound
              \<and> MsgType message \<in> set (ignored_messages env)"
    unfolding log_message_intercepting [OF assms(2) u]
    using a by (simp add: append_to_memory_log_def Let_def)
  show "session_message_count (fst (log_message env msg_route message st))
                  = session_message_count st"
    if u: "unicode_escape env queued = Inr replacement"
      and a: "msg_str_get_field (fix_delim env) replacement 112 = Inl FieldNotFound
              \<and> MsgType message \<in> set (ignored_messages env)"
    unfolding log_message_intercepting [OF assms(2) u]
    using a by (simp add: append_to_memory_log_def Let_def)
  show "snd (log_message env msg_route message st) = Inr ()"
    if u: "unicode_escape env queued = Inr replacement"
      and a: "msg_str_get_field (fix_delim env) replacement 112 = Inl FieldNotFound
              \<and> MsgType message \<in> set (ignored_messages env)"
    unfolding log_message_intercepting [OF assms(2) u]
    using a by (simp add: append_to_memory_log_def Let_def)
  show "session_message_log (fst (log_message env msg_route message st)) = session_message_log st
              \<or> (\<exists>entry. session_message_log (fst (log_message env msg_route message st))
                        = session_message_log st @ [entry]
                     \<and> le_state entry = ''SENT''
                     \<and> le_msg entry = msg_to_str (fix_delim env) replacement
                     \<and> le_notes entry = ''Modified version of '' @ gen_uuid env 0
                     \<and> le_uuid entry = gen_uuid env 1)"
    if u: "unicode_escape env queued = Inr replacement"
    unfolding log_message_intercepting [OF assms(2) u]
    by (simp add: append_to_memory_log_def Let_def)
  show "msg_to_str (fix_delim env) (to_string env message)
              = replace_char SOH_BIN (fix_delim env) (to_string env message)"
    if "list_all (\<lambda>c. printable c \<or> c = SOH_BIN \<or> c = fix_delim env) (to_string env message)"
    using that by (rule msg_to_str_display)
  show "msg_to_str (fix_delim env) replacement
              = replace_char SOH_BIN (fix_delim env) replacement"
    if "list_all (\<lambda>c. printable c \<or> c = SOH_BIN \<or> c = fix_delim env) replacement"
    using that by (rule msg_to_str_display)
qed


theorem interception_logged_witness:
  "log_file (fst (log_message scenario_env ''-> OUT(APP): '' scenario_order scenario_logs))
     = [[''20240101-00:00:01'', ''uuid-0'', ''INTERCEPTED'', ''-> OUT(APP)'', ''D (NewOrderSingle)'',
         ''8=FIX.4.2|9=5|35=D|55=A|10=000|'', ''''],
        [''20240101-00:00:02'', ''uuid-1'', ''SENT'', ''-> OUT(APP)'', ''D (NewOrderSingle)'',
         ''8=FIX.4.2|9=5|35=D|55=B|10=000|'', ''Modified version of uuid-0'']]
   \<and> session_message_log (fst (log_message scenario_env ''-> OUT(APP): '' scenario_order scenario_logs))
     = [\<lparr>le_time = ''20240101-00:00:02'', le_uuid = ''uuid-1'', le_state = ''SENT'',
         le_route = ''-> OUT(APP)'', le_type = ''D (NewOrderSingle)'',
         le_msg = ''8=FIX.4.2|9=5|35=D|55=B|10=000|'',
         le_notes = ''Modified version of uuid-0'', le_id = 0\<rparr>]
   \<and> message_queue (fst (log_message scenario_env ''-> OUT(APP): '' scenario_order scenario_logs))
     = message_queue scenario_logs"
proof -
  define queued where "queued = replace_char CHR ''|'' SOH_BIN ''8=FIX.4.2|9=5|35=D|55=B|10=000|''"
  define result where
    "result = log_message scenario_env ''-> OUT(APP): '' scenario_order scenario_logs"
  have q: "message_queue scenario_logs = queued # []"
    by (simp add: scenario_logs_def queued_def)
  have u: "unicode_escape scenario_env queued = Inr queued"
    by (simp add: scenario_env_def)
  have w: "log_file_writable scenario_logs"
    by (simp add: scenario_logs_def)
  have old: "log_file scenario_logs = []" "session_message_log scenario_logs = []"
    "session_message_count scenario_logs + 1 = 0"
    by (simp_all add: scenario_logs_def)
  have absent: "msg_str_get_field (fix_delim scenario_env) queued 112 = Inl FieldNotFound"
    unfolding queued_def by code_simp
  have kept: "MsgType scenario_order \<notin> set (ignored_messages scenario_env)"
    by (simp add: scenario_order_def scenario_env_def)
  have plain: "list_all (\<lambda>c. printable c \<or> c = SOH_BIN \<or> c = fix_delim scenario_env)
                 (to_string scenario_env scenario_order)"
    "list_all (\<lambda>c. printable c \<or> c = SOH_BIN \<or> c = fix_delim scenario_env) queued"
    unfolding queued_def by code_simp+
  have shown: "replace_char SOH_BIN (fix_delim scenario_env) (to_string scenario_env scenario_order)
      = ''8=FIX.4.2|9=5|35=D|55=A|10=000|''"
    "replace_char SOH_BIN (fix_delim scenario_env) queued = ''8=FIX.4.2|9=5|35=D|55=B|10=000|''"
    unfolding queued_def by code_simp+
  have stamps: "gen_timestamp scenario_env 1 = ''20240101-00:00:01''"
    "gen_timestamp scenario_env 2 = ''20240101-00:00:02''"
    "gen_uuid scenario_env 0 = ''uuid-0''" "gen_uuid scenario_env 1 = ''uuid-1''"
    by code_simp+
  have types: "MsgType scenario_order @ '' ('' @ message_type_name scenario_env scenario_order @ '')''
      = ''D (NewOrderSingle)''"
    "MsgType scenario_order @ '' ('' @ colour scenario_env (message_type_name scenario_env scenario_order) @ '')''
      = ''D (NewOrderSingle)''"
    by code_simp+
  have route: "take (length ''-> OUT(APP): '' - 2) ''-> OUT(APP): '' = ''-> OUT(APP)''"
    by simp
  note t = interception_logged
      [where st=scenario_logs and env=scenario_env and queued=queued and waiting="[]"
         and replacement=queued and msg_route="''-> OUT(APP): ''" and message=scenario_order,
       OF q, THEN conjunct2, THEN mp, OF u, folded result_def]
  have rows: "log_file (fst result)
     = [[''20240101-00:00:01'', ''uuid-0'', ''INTERCEPTED'', ''-> OUT(APP)'', ''D (NewOrderSingle)'',
         ''8=FIX.4.2|9=5|35=D|55=A|10=000|'', ''''],
        [''20240101-00:00:02'', ''uuid-1'', ''SENT'', ''-> OUT(APP)'', ''D (NewOrderSingle)'',
         ''8=FIX.4.2|9=5|35=D|55=B|10=000|'', ''Modified version of uuid-0'']]"
    using t w plain
    unfolding old stamps types route
    by (simp add: shown)
  have memory: "session_message_log (fst result)
     = [\<lparr>le_time = ''20240101-00:00:02'', le_uuid = ''uuid-1'', le_state = ''SENT'',
         le_route = ''-> OUT(APP)'', le_type = ''D (NewOrderSingle)'',
         le_msg = ''8=FIX.4.2|9=5|35=D|55=B|10=000|'',
         le_notes = ''Modified version of uuid-0'', le_id = 0\<rparr>]"
    using t absent kept plain
    unfolding old stamps types route
    by (simp add: shown)
  have waiting_kept: "message_queue (fst result) = message_queue scenario_logs"
    using t by (simp only:)
  show ?thesis
    using rows memory waiting_kept unfolding result_def by (intro conjI)
qed

section \<open>Properties of the store ids\<close>































end
